theory Spec2Isabelle
  imports Complex_Main "HOL-Library.Char_ord" "HOL-Library.List_Lexorder" "HOL-Library.Log_Nat"
begin

section \<open>JavaScript values\<close>

text \<open>
  A JavaScript number is modelled as a rational or \<open>NaN\<close>; the infinities are outside the
  model. The code divides by the literals 10, 30, 60, 1000 and 1440 only. The arithmetic of
  the arrival cascade in \<open>handleSave\<close>, where a duration with decimals is multiplied by 60
  and the minute is cut off by \<open>Math.floor\<close>, rounds every result to the nearest double as
  IEEE 754 does (see \<open>dbl\<close> below). The other functions are modelled with exact values:
  \<open>syncSegments\<close> and \<open>calculateDuration\<close> round what they compute with \<open>Math.round\<close>, and in
  \<open>minutesToTime\<close> the remainder of doubles is exact and the quotient of a whole number by 60
  has the same floor rounded or not.
\<close>

datatype num = Num rat | NaN

text \<open>
  A field of the editor form (\<open>localForm: any\<close>): the number copied from the trip, or the
  string an input element delivered.
\<close>

datatype jsval = JNum num | JStr string

fun js_add :: "num \<Rightarrow> num \<Rightarrow> num" where
  "js_add (Num a) (Num b) = Num (a + b)"
| "js_add _ _ = NaN"

fun js_sub :: "num \<Rightarrow> num \<Rightarrow> num" where
  "js_sub (Num a) (Num b) = Num (a - b)"
| "js_sub _ _ = NaN"

fun js_mul :: "num \<Rightarrow> num \<Rightarrow> num" where
  "js_mul (Num a) (Num b) = Num (a * b)"
| "js_mul _ _ = NaN"

text \<open>Division; every divisor in the code is a non-zero literal.\<close>

fun js_div :: "num \<Rightarrow> num \<Rightarrow> num" where
  "js_div (Num a) (Num b) = (if b = 0 then NaN else Num (a / b))"
| "js_div _ _ = NaN"

definition trunc :: "rat \<Rightarrow> int" where
  "trunc q = (if 0 \<le> q then \<lfloor>q\<rfloor> else \<lceil>q\<rceil>)"

text \<open>The remainder operator \<open>%\<close>: the result has the sign of the dividend.\<close>

fun js_rem :: "num \<Rightarrow> num \<Rightarrow> num" where
  "js_rem (Num a) (Num b) = (if b = 0 then NaN else Num (a - b * of_int (trunc (a / b))))"
| "js_rem _ _ = NaN"

fun js_floor :: "num \<Rightarrow> num" where
  "js_floor (Num a) = Num (of_int \<lfloor>a\<rfloor>)"
| "js_floor NaN = NaN"

text \<open>\<open>Math.round\<close> rounds a half towards plus infinity.\<close>

fun js_round :: "num \<Rightarrow> num" where
  "js_round (Num a) = Num (of_int \<lfloor>a + 1 / 2\<rfloor>)"
| "js_round NaN = NaN"

fun js_max :: "num \<Rightarrow> num \<Rightarrow> num" where
  "js_max (Num a) (Num b) = Num (max a b)"
| "js_max _ _ = NaN"

subsection \<open>Rounding to doubles\<close>

text \<open>
  The double nearest to a rational, ties to the even significand: with \<open>e\<close> the binary
  exponent of \<open>x\<close>, the doubles around \<open>x\<close> are the multiples of \<open>2 ^ (e - 52)\<close>. Overflow
  and subnormal numbers are not modelled; the numbers of the program are minutes, hours and
  days. An IEEE operation on doubles returns the nearest double to the exact result, so
  each operation below is the exact one followed by \<open>dbl\<close>.
\<close>

definition pow2 :: "int \<Rightarrow> rat" where
  "pow2 k = (if 0 \<le> k then 2 ^ nat k else 1 / 2 ^ nat (- k))"

text \<open>The binary exponent \<open>e\<close> of a positive rational: \<open>2 ^ e \<le> x < 2 ^ (e + 1)\<close>.\<close>

definition ilog2 :: "rat \<Rightarrow> int" where
  "ilog2 x =
     (case quotient_of x of (p, q) \<Rightarrow>
        (let e0 = bitlen p - bitlen q in if pow2 e0 \<le> x then e0 else e0 - 1))"

definition round_even :: "rat \<Rightarrow> int" where
  "round_even q =
     (let f = \<lfloor>q\<rfloor>; d = q - of_int f
      in if d < 1 / 2 then f else if 1 / 2 < d then f + 1 else if even f then f else f + 1)"

definition dbl :: "rat \<Rightarrow> rat" where
  "dbl x =
     (if x = 0 then 0
      else (let u = pow2 (ilog2 \<bar>x\<bar> - 52) in u * of_int (round_even (x / u))))"

fun rounded :: "num \<Rightarrow> num" where
  "rounded (Num a) = Num (dbl a)"
| "rounded NaN = NaN"

definition add64 :: "num \<Rightarrow> num \<Rightarrow> num" where
  "add64 a b = rounded (js_add a b)"

definition sub64 :: "num \<Rightarrow> num \<Rightarrow> num" where
  "sub64 a b = rounded (js_sub a b)"

definition mul64 :: "num \<Rightarrow> num \<Rightarrow> num" where
  "mul64 a b = rounded (js_mul a b)"

definition div64 :: "num \<Rightarrow> num \<Rightarrow> num" where
  "div64 a b = rounded (js_div a b)"

text \<open>\<open>a < b\<close> and \<open>a !== b\<close> on numbers: every comparison with \<open>NaN\<close> is false, so
  \<open>NaN !== NaN\<close> holds.\<close>

fun js_lt :: "num \<Rightarrow> num \<Rightarrow> bool" where
  "js_lt (Num a) (Num b) = (a < b)"
| "js_lt _ _ = False"

fun js_neq :: "num \<Rightarrow> num \<Rightarrow> bool" where
  "js_neq (Num a) (Num b) = (a \<noteq> b)"
| "js_neq _ _ = True"

text \<open>\<open>x || d\<close>: a number is falsy when it is 0 or \<open>NaN\<close>, a string when it is empty.\<close>

fun num_or :: "num \<Rightarrow> num \<Rightarrow> num" where
  "num_or (Num a) d = (if a = 0 then d else Num a)"
| "num_or NaN d = d"

definition str_or :: "string \<Rightarrow> string \<Rightarrow> string" where
  "str_or s d = (if s = [] then d else s)"

subsection \<open>Arrays\<close>

text \<open>\<open>findIndex\<close> and \<open>indexOf\<close>: the first index that matches, or -1.\<close>

fun findIndex :: "('a \<Rightarrow> bool) \<Rightarrow> 'a list \<Rightarrow> int" where
  "findIndex p [] = - 1"
| "findIndex p (x # xs) =
     (if p x then 0 else (let r = findIndex p xs in if r = - 1 then - 1 else r + 1))"

text \<open>\<open>Array.from(new Set(xs))\<close>: a set keeps insertion order and ignores a value it
  already holds, so the result lists the values in order of first appearance.\<close>

definition set_add :: "'a list \<Rightarrow> 'a \<Rightarrow> 'a list" where
  "set_add acc x = (if x \<in> set acc then acc else acc @ [x])"

definition from_Set :: "'a list \<Rightarrow> 'a list" where
  "from_Set xs = foldl set_add [] xs"

text \<open>
  Reading and writing an array element at an integer index. Reading outside the array
  gives \<open>undefined\<close> (\<open>None\<close>). Writing at a negative index creates a property that is no
  element: the element list is unchanged. Writing past the end extends the array.
\<close>

definition js_get :: "'a option list \<Rightarrow> int \<Rightarrow> 'a option" where
  "js_get xs i = (if 0 \<le> i \<and> i < int (length xs) then xs ! nat i else None)"

definition js_set :: "'a option list \<Rightarrow> int \<Rightarrow> 'a option \<Rightarrow> 'a option list" where
  "js_set xs i v =
     (if i < 0 then xs
      else if i < int (length xs) then xs[nat i := v]
      else xs @ replicate (nat i - length xs) None @ [v])"

text \<open>
  \<open>Array.prototype.sort\<close> with a comparator is stable; the element \<open>x\<close> moves behind \<open>y\<close>
  only when the comparator is positive on \<open>(x, y)\<close>, and a \<open>NaN\<close> result counts as 0. For a
  consistent comparator the stable sorted arrangement is unique, so the insertion sort below
  returns what every conforming engine returns; for an inconsistent comparator the standard
  leaves the order to the engine.
\<close>

fun is_pos :: "num \<Rightarrow> bool" where
  "is_pos (Num a) = (0 < a)"
| "is_pos NaN = False"

fun sort_insert :: "('a \<Rightarrow> 'a \<Rightarrow> num) \<Rightarrow> 'a \<Rightarrow> 'a list \<Rightarrow> 'a list" where
  "sort_insert cmp x [] = [x]"
| "sort_insert cmp x (y # ys) =
     (if is_pos (cmp x y) then y # sort_insert cmp x ys else x # y # ys)"

fun js_sort :: "('a \<Rightarrow> 'a \<Rightarrow> num) \<Rightarrow> 'a list \<Rightarrow> 'a list" where
  "js_sort cmp [] = []"
| "js_sort cmp (x # xs) = sort_insert cmp x (js_sort cmp xs)"

text \<open>
  Modelled from the spec: \<open>String.prototype.localeCompare\<close> is a platform function whose
  collation depends on the locale; the specification calls the comparison of start times
  lexicographic, which is what every locale gives on the digits and colon of a time string.
\<close>

definition localeCompare :: "string \<Rightarrow> string \<Rightarrow> num" where
  "localeCompare a b = (if a = b then Num 0 else if a < b then Num (- 1) else Num 1)"

text \<open>Printing a number with \<open>toString\<close>. The code prints the results of \<open>Math.floor\<close> and their remainders only, which are integral (or \<open>NaN\<close>); on those the decimal digits below are what \<open>toString\<close> gives.\<close>

definition digit_char :: "nat \<Rightarrow> char" where
  "digit_char d = char_of (48 + d)"

fun show_nat :: "nat \<Rightarrow> string" where
  "show_nat n = (if n < 10 then [digit_char n] else show_nat (n div 10) @ [digit_char (n mod 10)])"

declare show_nat.simps [simp del]

definition show_int :: "int \<Rightarrow> string" where
  "show_int k = (if k < 0 then CHR ''-'' # show_nat (nat (- k)) else show_nat (nat k))"

fun num_toString :: "num \<Rightarrow> string" where
  "num_toString NaN = ''NaN''"
| "num_toString (Num a) = show_int \<lfloor>a\<rfloor>"

definition padStart2 :: "string \<Rightarrow> string" where
  "padStart2 s = replicate (2 - length s) CHR ''0'' @ s"

text \<open>\<open>s.split(':')\<close>: the pieces between the colons; never an empty list.\<close>

fun split_colon :: "string \<Rightarrow> string list" where
  "split_colon [] = [ [] ]"
| "split_colon (c # cs) =
     (if c = CHR '':'' then [] # split_colon cs
      else (case split_colon cs of p # ps \<Rightarrow> (c # p) # ps | [] \<Rightarrow> [ [c] ]))"

subsection \<open>Platform functions\<close>

text \<open>
  The functions the code calls but does not define: the built-in conversions \<open>Number\<close>,
  \<open>parseInt\<close> and \<open>parseFloat\<close>, and Leaflet's \<open>distanceTo\<close> (metres between two latitude and
  longitude pairs). They are parameters of the model.
\<close>

record platform =
  js_Number :: "string \<Rightarrow> num"
  parseInt :: "jsval \<Rightarrow> num"
  parseFloat :: "jsval \<Rightarrow> num"
  distanceTo :: "num \<Rightarrow> num \<Rightarrow> num \<Rightarrow> num \<Rightarrow> num"

section \<open>Data model\<close>

datatype TransportMode = TRAIN | BUS | AUTO | FERRY | WALK | TAXI

datatype Category = STATION | TEMPLE | NATURE | MARKET | STAY | TRANSIT | FOOD
  | SIGHTSEEING | SHOPPING | CULTURE

record Checkpoint =
  cp_id :: string
  cp_name :: string
  lat :: num
  lng :: num
  cp_type :: Category
  timeSpentHours :: num
  startTime :: string
  endTime :: string
  day :: num
  cp_cost :: num
  cp_notes :: string
  city :: string

text \<open>
  The cost of a segment is declared a number, but \<open>handleSave\<close> stores the form's value in
  it unconverted when both endpoints exist, so the field holds a form value.
\<close>

record RouteSegment =
  fromId :: string
  toId :: string
  mode :: TransportMode
  distanceKm :: num
  durationHours :: num
  seg_cost :: jsval
  safetyNote :: string

record Trip =
  trip_id :: string
  trip_name :: string
  checkpoints :: "Checkpoint list"
  segments :: "RouteSegment list"
  totalBudget :: num
  startDate :: "string option"

definition INITIAL_TRIP :: Trip where
  "INITIAL_TRIP = \<lparr>trip_id = ''trip-1'', trip_name = ''Nomad Expedition'', checkpoints = [],
     segments = [], totalBudget = Num 0, startDate = None\<rparr>"

section \<open>Helpers\<close>

definition connects :: "Checkpoint \<Rightarrow> Checkpoint \<Rightarrow> RouteSegment \<Rightarrow> bool" where
  "connects from to s = (fromId s = cp_id from \<and> toId s = cp_id to)"

definition synthesize :: "platform \<Rightarrow> Checkpoint \<Rightarrow> Checkpoint \<Rightarrow> RouteSegment" where
  "synthesize P from to =
     (let dist = js_div (distanceTo P (lat from) (lng from) (lat to) (lng to)) (Num 1000)
      in \<lparr>fromId = cp_id from, toId = cp_id to,
          mode = (if city from = city to then AUTO else TRAIN),
          distanceKm = js_round dist,
          durationHours =
            js_max (Num (1 / 2)) (js_div (js_round (js_mul (js_div dist (Num 30)) (Num 10))) (Num 10)),
          seg_cost = JNum (Num 0), safetyNote = []\<rparr>)"

fun syncSegments :: "platform \<Rightarrow> Checkpoint list \<Rightarrow> RouteSegment list \<Rightarrow> RouteSegment list" where
  "syncSegments P (from # to # rest) existingSegments =
     (case find (connects from to) existingSegments of
        Some existing \<Rightarrow> existing
      | None \<Rightarrow> synthesize P from to) # syncSegments P (to # rest) existingSegments"
| "syncSegments P _ existingSegments = []"

definition timeToMinutes :: "platform \<Rightarrow> string \<Rightarrow> num" where
  "timeToMinutes P timeStr =
     (if timeStr = [] then Num 0
      else (case split_colon timeStr of
              h # m # _ \<Rightarrow> js_add (js_mul (js_Number P h) (Num 60)) (js_Number P m)
            | _ \<Rightarrow> NaN))"

definition minutesToTime :: "num \<Rightarrow> string" where
  "minutesToTime totalMinutes =
     (let mins = js_floor (js_rem totalMinutes (Num 1440));
          h = js_floor (js_div mins (Num 60));
          m = js_rem mins (Num 60)
      in padStart2 (num_toString h) @ '':'' @ padStart2 (num_toString m))"

definition calculateDuration :: "platform \<Rightarrow> string \<Rightarrow> string \<Rightarrow> num" where
  "calculateDuration P start end =
     (if start = [] \<or> end = [] then Num 0
      else (let startMins = timeToMinutes P start;
                endMins0 = timeToMinutes P end;
                endMins = (if js_lt endMins0 startMins then js_add endMins0 (Num 1440) else endMins0)
            in js_div (js_round (js_mul (js_div (js_sub endMins startMins) (Num 60)) (Num 10))) (Num 10)))"

section \<open>Itinerary engine\<close>

text \<open>The comparator both re-sorting operations pass to \<open>sort\<close>.\<close>

definition byDayThenStart :: "Checkpoint \<Rightarrow> Checkpoint \<Rightarrow> num" where
  "byDayThenStart a b =
     (if js_neq (day a) (day b) then js_sub (day a) (day b)
      else localeCompare (str_or (startTime a) []) (str_or (startTime b) []))"

text \<open>The regrouping shared by \<open>addCheckpoint\<close> and \<open>handleSave\<close>: cities in order of first
  appearance, each city's checkpoints sorted.\<close>

definition regroup :: "Checkpoint list \<Rightarrow> Checkpoint list" where
  "regroup newCheckpoints =
     (let cityOrder = from_Set (map city newCheckpoints)
      in concat (map (\<lambda>cName. js_sort byDayThenStart (filter (\<lambda>cp. city cp = cName) newCheckpoints))
                   cityOrder))"

subsection \<open>addCheckpoint\<close>

text \<open>The checkpoint \<open>addCheckpoint\<close> builds from the trip on display; \<open>newId\<close> is the
  result of \<open>generateId\<close>.\<close>

definition newCheckpoint ::
  "string \<Rightarrow> num \<Rightarrow> num \<Rightarrow> string \<Rightarrow> string \<Rightarrow> string option \<Rightarrow> Trip \<Rightarrow> Checkpoint" where
  "newCheckpoint newId la lo nm cty targetCity trip =
     (let lastDay = (case checkpoints trip of [] \<Rightarrow> Num 1 | _ \<Rightarrow> day (last (checkpoints trip)))
      in \<lparr>cp_id = newId, cp_name = nm, lat = la, lng = lo, cp_type = SIGHTSEEING,
          timeSpentHours = Num 2, startTime = ''09:00'', endTime = ''11:00'', day = lastDay,
          cp_cost = Num 0, cp_notes = [],
          city = (case targetCity of None \<Rightarrow> cty | Some tc \<Rightarrow> str_or tc cty)\<rparr>)"

text \<open>The updater \<open>addCheckpoint\<close> hands to \<open>updateActiveTrip\<close>.\<close>

definition addCheckpoint_updater :: "platform \<Rightarrow> Checkpoint \<Rightarrow> Trip \<Rightarrow> Trip" where
  "addCheckpoint_updater P newCp prev =
     (let newCheckpoints = checkpoints prev @ [newCp];
          reordered = regroup newCheckpoints
      in prev\<lparr>checkpoints := reordered, segments := syncSegments P reordered (segments prev)\<rparr>)"

subsection \<open>moveCheckpoint and moveDestination\<close>

definition moveCheckpoint :: "platform \<Rightarrow> string \<Rightarrow> int \<Rightarrow> Trip \<Rightarrow> Trip" where
  "moveCheckpoint P ident delta prev =
     (let idx = findIndex (\<lambda>c. cp_id c = ident) (checkpoints prev);
          newIdx = idx + delta
      in if idx = - 1 \<or> newIdx < 0 \<or> newIdx \<ge> int (length (checkpoints prev)) then prev
         else (let cps = checkpoints prev;
                   newCps = cps[nat idx := cps ! nat newIdx, nat newIdx := cps ! nat idx]
               in prev\<lparr>checkpoints := newCps, segments := syncSegments P newCps (segments prev)\<rparr>))"

definition moveDestination :: "platform \<Rightarrow> string \<Rightarrow> int \<Rightarrow> Trip \<Rightarrow> Trip" where
  "moveDestination P cityName delta prev =
     (let cities = from_Set (map city (checkpoints prev));
          cityIdx = findIndex (\<lambda>c. c = cityName) cities;
          targetIdx = cityIdx + delta
      in if targetIdx < 0 \<or> targetIdx \<ge> int (length cities) then prev
         else (let order0 = map Some cities;
                   atTarget = js_get order0 targetIdx;
                   atCity = js_get order0 cityIdx;
                   newCityOrder = js_set (js_set order0 cityIdx atTarget) targetIdx atCity;
                   reorderedCps =
                     concat (map (\<lambda>c. filter (\<lambda>cp. Some (city cp) = c) (checkpoints prev)) newCityOrder)
               in prev\<lparr>checkpoints := reorderedCps,
                       segments := syncSegments P reorderedCps (segments prev)\<rparr>))"

subsection \<open>handleSave\<close>

text \<open>
  The editor form is a copy of the checkpoint or segment that \<open>openPinEditor\<close> or
  \<open>openSegmentEditor\<close> took, in which the input elements replace \<open>day\<close>, \<open>cost\<close>,
  \<open>timeSpentHours\<close> and \<open>durationHours\<close> by strings.
\<close>

record PinForm =
  pf_id :: string
  pf_name :: string
  pf_lat :: num
  pf_lng :: num
  pf_type :: Category
  pf_timeSpentHours :: jsval
  pf_startTime :: string
  pf_endTime :: string
  pf_day :: jsval
  pf_cost :: jsval
  pf_notes :: string
  pf_city :: string

record SegmentForm =
  sf_fromId :: string
  sf_toId :: string
  sf_mode :: TransportMode
  sf_distanceKm :: num
  sf_durationHours :: jsval
  sf_cost :: jsval
  sf_safetyNote :: string

definition openPinEditor :: "Checkpoint \<Rightarrow> PinForm" where
  "openPinEditor cp = \<lparr>pf_id = cp_id cp, pf_name = cp_name cp, pf_lat = lat cp, pf_lng = lng cp,
     pf_type = cp_type cp, pf_timeSpentHours = JNum (timeSpentHours cp),
     pf_startTime = startTime cp, pf_endTime = endTime cp, pf_day = JNum (day cp),
     pf_cost = JNum (cp_cost cp), pf_notes = cp_notes cp, pf_city = city cp\<rparr>"

definition openSegmentEditor :: "RouteSegment \<Rightarrow> SegmentForm" where
  "openSegmentEditor seg = \<lparr>sf_fromId = fromId seg, sf_toId = toId seg, sf_mode = mode seg,
     sf_distanceKm = distanceKm seg, sf_durationHours = JNum (durationHours seg),
     sf_cost = seg_cost seg, sf_safetyNote = safetyNote seg\<rparr>"

definition sanitizedForm :: "platform \<Rightarrow> PinForm \<Rightarrow> Checkpoint" where
  "sanitizedForm P localForm =
     \<lparr>cp_id = pf_id localForm, cp_name = pf_name localForm, lat = pf_lat localForm,
      lng = pf_lng localForm, cp_type = pf_type localForm,
      timeSpentHours = num_or (parseFloat P (pf_timeSpentHours localForm)) (Num 0),
      startTime = pf_startTime localForm, endTime = pf_endTime localForm,
      day = num_or (parseInt P (pf_day localForm)) (Num 1),
      cp_cost = num_or (parseInt P (pf_cost localForm)) (Num 0),
      cp_notes = pf_notes localForm, city = pf_city localForm\<rparr>"

text \<open>\<open>handleSave\<close> with a pin editor open on \<open>editorId\<close>.\<close>

definition handleSave_pin :: "platform \<Rightarrow> string \<Rightarrow> PinForm \<Rightarrow> Trip \<Rightarrow> Trip" where
  "handleSave_pin P editorId localForm prev =
     (let newCps = map (\<lambda>c. if cp_id c = editorId then sanitizedForm P localForm else c)
                     (checkpoints prev);
          finalCps = regroup newCps
      in prev\<lparr>checkpoints := finalCps, segments := syncSegments P finalCps (segments prev)\<rparr>)"

text \<open>The segment the first branch stores: the form with the duration replaced.\<close>

definition form_segment :: "SegmentForm \<Rightarrow> num \<Rightarrow> jsval \<Rightarrow> RouteSegment" where
  "form_segment localForm dur cst =
     \<lparr>fromId = sf_fromId localForm, toId = sf_toId localForm, mode = sf_mode localForm,
      distanceKm = sf_distanceKm localForm, durationHours = dur, seg_cost = cst,
      safetyNote = sf_safetyNote localForm\<rparr>"

text \<open>The callback of the \<open>map\<close> that shifts the checkpoints, applied to a checkpoint and
  its index. The sums, products and quotients of the cascade are those of doubles.\<close>

definition shift_checkpoint :: "int \<Rightarrow> num \<Rightarrow> string \<Rightarrow> num \<Rightarrow> num \<Rightarrow> Checkpoint \<times> nat \<Rightarrow> Checkpoint" where
  "shift_checkpoint toIdx newArrivalDay arrivalTime totalMins dayShift ci =
     (case ci of (cp, idx) \<Rightarrow>
        if int idx = toIdx then
          cp\<lparr>day := newArrivalDay, startTime := arrivalTime,
             endTime := minutesToTime (add64 totalMins (mul64 (timeSpentHours cp) (Num 60)))\<rparr>
        else if int idx > toIdx then cp\<lparr>day := add64 (day cp) dayShift\<rparr>
        else cp)"

text \<open>\<open>handleSave\<close> with a segment editor open on the pair \<open>(idFrom, idTo)\<close>.\<close>

definition handleSave_segment ::
  "platform \<Rightarrow> string \<Rightarrow> string \<Rightarrow> SegmentForm \<Rightarrow> Trip \<Rightarrow> Trip" where
  "handleSave_segment P idFrom idTo localForm prev =
     (let durHours = num_or (parseFloat P (sf_durationHours localForm)) (Num 0);
          fromIdx = findIndex (\<lambda>c. cp_id c = idFrom) (checkpoints prev);
          toIdx = findIndex (\<lambda>c. cp_id c = idTo) (checkpoints prev)
      in if fromIdx \<noteq> - 1 \<and> toIdx \<noteq> - 1 then
           (let fromCp = checkpoints prev ! nat fromIdx;
                toCp = checkpoints prev ! nat toIdx;
                startMins = timeToMinutes P (str_or (endTime fromCp) (str_or (startTime fromCp) ''09:00''));
                totalMins = add64 startMins (mul64 durHours (Num 60));
                arrivalTime = minutesToTime totalMins;
                newArrivalDay = add64 (day fromCp) (js_floor (div64 totalMins (Num 1440)));
                dayShift = sub64 newArrivalDay (day toCp);
                shiftedCps = map (shift_checkpoint toIdx newArrivalDay arrivalTime totalMins dayShift)
                               (zip (checkpoints prev) [0 ..< length (checkpoints prev)])
            in prev\<lparr>checkpoints := shiftedCps,
                    segments := map (\<lambda>s. if fromId s = idFrom \<and> toId s = idTo
                                           then form_segment localForm durHours (sf_cost localForm)
                                           else s) (segments prev)\<rparr>)
         else prev\<lparr>segments := map (\<lambda>s. if fromId s = idFrom \<and> toId s = idTo
                     then form_segment localForm
                            (num_or (parseFloat P (sf_durationHours localForm)) (Num 0))
                            (JNum (num_or (parseInt P (sf_cost localForm)) (Num 0)))
                     else s) (segments prev)\<rparr>)"

subsection \<open>Deleting\<close>

definition handleDeleteCheckpoint :: "platform \<Rightarrow> string \<Rightarrow> Trip \<Rightarrow> Trip" where
  "handleDeleteCheckpoint P ident prev =
     (let newCheckpoints = filter (\<lambda>c. cp_id c \<noteq> ident) (checkpoints prev)
      in prev\<lparr>checkpoints := newCheckpoints,
              segments := syncSegments P newCheckpoints (segments prev)\<rparr>)"

definition handleDeleteDestination :: "platform \<Rightarrow> string \<Rightarrow> Trip \<Rightarrow> Trip" where
  "handleDeleteDestination P cityName prev =
     (let newCheckpoints = filter (\<lambda>c. city c \<noteq> cityName) (checkpoints prev)
      in prev\<lparr>checkpoints := newCheckpoints,
              segments := syncSegments P newCheckpoints (segments prev)\<rparr>)"

definition updateTripStartDate :: "string \<Rightarrow> Trip \<Rightarrow> Trip" where
  "updateTripStartDate date prev = prev\<lparr>startDate := Some date\<rparr>"

subsection \<open>The operations of the engine\<close>

text \<open>
  The operations as the presentation layer calls them, on the trip they update. A field
  edit is \<open>handleSave\<close> with the editor that \<open>openPinEditor\<close> or \<open>openSegmentEditor\<close> opened:
  the editor's key is the id, or the id pair, of the form itself.
\<close>

datatype engine_op =
    InsertCheckpoint string num num string string "string option"
  | MoveCheckpoint string int
  | MoveDestination string int
  | DeleteCheckpoint string
  | DeleteDestination string
  | UpdateCheckpointFields PinForm
  | UpdateSegmentFields SegmentForm
  | SetTripStartDate string

fun run_op :: "platform \<Rightarrow> engine_op \<Rightarrow> Trip \<Rightarrow> Trip" where
  "run_op P (InsertCheckpoint newId la lo nm cty targetCity) t =
     addCheckpoint_updater P (newCheckpoint newId la lo nm cty targetCity t) t"
| "run_op P (MoveCheckpoint ident delta) t = moveCheckpoint P ident delta t"
| "run_op P (MoveDestination cityName delta) t = moveDestination P cityName delta t"
| "run_op P (DeleteCheckpoint ident) t = handleDeleteCheckpoint P ident t"
| "run_op P (DeleteDestination cityName) t = handleDeleteDestination P cityName t"
| "run_op P (UpdateCheckpointFields localForm) t = handleSave_pin P (pf_id localForm) localForm t"
| "run_op P (UpdateSegmentFields localForm) t =
     handleSave_segment P (sf_fromId localForm) (sf_toId localForm) localForm t"
| "run_op P (SetTripStartDate date) t = updateTripStartDate date t"

section \<open>Trip list and history\<close>

text \<open>The state of the application that the engine and the history act on.\<close>

record app_state =
  trips :: "Trip list"
  activeTripId :: string
  past :: "Trip list list"
  future :: "Trip list list"

datatype error = TypeError

text \<open>\<open>prev.slice(-24)\<close>: the last 24 elements.\<close>

definition slice_last24 :: "'a list \<Rightarrow> 'a list" where
  "slice_last24 xs = drop (length xs - 24) xs"

definition recordAction :: "Trip list \<Rightarrow> app_state \<Rightarrow> app_state" where
  "recordAction currentTrips s = s\<lparr>past := slice_last24 (past s) @ [currentTrips], future := []\<rparr>"

definition undo :: "app_state \<Rightarrow> app_state" where
  "undo s =
     (if past s = [] then s
      else (let previous = last (past s)
            in s\<lparr>future := trips s # future s, past := butlast (past s), trips := previous\<rparr>))"

definition redo :: "app_state \<Rightarrow> app_state" where
  "redo s =
     (case future s of
        [] \<Rightarrow> s
      | next # rest \<Rightarrow> s\<lparr>past := past s @ [trips s], future := rest, trips := next\<rparr>)"

definition createNewTrip :: "string \<Rightarrow> app_state \<Rightarrow> app_state" where
  "createNewTrip newId s =
     (let newTrip = INITIAL_TRIP\<lparr>trip_id := newId,
                      trip_name := ''Adventure #'' @ show_nat (length (trips s) + 1)\<rparr>
      in (recordAction (trips s) s)\<lparr>trips := trips s @ [newTrip], activeTripId := newId\<rparr>)"

text \<open>
  \<open>deleteTrip\<close> reads \<open>newTrips[0].id\<close> when the active trip was deleted; on an empty
  \<open>newTrips\<close> that read throws.
\<close>

definition deleteTrip :: "string \<Rightarrow> app_state \<Rightarrow> error + app_state" where
  "deleteTrip ident s =
     (if length (trips s) = 1 then Inr s
      else (let newTrips = filter (\<lambda>t. trip_id t \<noteq> ident) (trips s);
                s1 = (recordAction (trips s) s)\<lparr>trips := newTrips\<rparr>
            in if activeTripId s = ident then
                 (case newTrips of
                    [] \<Rightarrow> Inl TypeError
                  | t # _ \<Rightarrow> Inr (s1\<lparr>activeTripId := trip_id t\<rparr>))
               else Inr s1))"

definition renameActiveTrip :: "string \<Rightarrow> app_state \<Rightarrow> app_state" where
  "renameActiveTrip newName s =
     (recordAction (trips s) s)
       \<lparr>trips := map (\<lambda>t. if trip_id t = activeTripId s then t\<lparr>trip_name := newName\<rparr> else t) (trips s)\<rparr>"

definition updateActiveTrip :: "(Trip \<Rightarrow> Trip) \<Rightarrow> app_state \<Rightarrow> app_state" where
  "updateActiveTrip updater s =
     (recordAction (trips s) s)
       \<lparr>trips := map (\<lambda>t. if trip_id t = activeTripId s then updater t else t) (trips s)\<rparr>"

text \<open>The trip on display: \<open>trips.find(t => t.id === activeTripId) || trips[0]\<close>.\<close>

definition activeTrip :: "app_state \<Rightarrow> Trip option" where
  "activeTrip s =
     (case find (\<lambda>t. trip_id t = activeTripId s) (trips s) of
        Some t \<Rightarrow> Some t
      | None \<Rightarrow> (case trips s of [] \<Rightarrow> None | t # _ \<Rightarrow> Some t))"

text \<open>
  \<open>addCheckpoint\<close> reads the last checkpoint of the trip on display before it updates the
  active trip; without a trip that read throws, before any state is set.
\<close>

definition addCheckpoint ::
  "platform \<Rightarrow> string \<Rightarrow> num \<Rightarrow> num \<Rightarrow> string \<Rightarrow> string \<Rightarrow> string option \<Rightarrow> app_state
     \<Rightarrow> error + app_state" where
  "addCheckpoint P newId la lo nm cty targetCity s =
     (case activeTrip s of
        None \<Rightarrow> Inl TypeError
      | Some trip \<Rightarrow>
          Inr (updateActiveTrip
                 (addCheckpoint_updater P (newCheckpoint newId la lo nm cty targetCity trip)) s))"

datatype app_op =
    CreateNewTrip string
  | DeleteTrip string
  | RenameActiveTrip string
  | Engine engine_op

fun run_app :: "platform \<Rightarrow> app_op \<Rightarrow> app_state \<Rightarrow> error + app_state" where
  "run_app P (CreateNewTrip newId) s = Inr (createNewTrip newId s)"
| "run_app P (DeleteTrip ident) s = deleteTrip ident s"
| "run_app P (RenameActiveTrip newName) s = Inr (renameActiveTrip newName s)"
| "run_app P (Engine (InsertCheckpoint newId la lo nm cty targetCity)) s =
     addCheckpoint P newId la lo nm cty targetCity s"
| "run_app P (Engine X) s = Inr (updateActiveTrip (run_op P X) s)"

text \<open>An operation is rejected before anything is recorded only by the guard of
  \<open>deleteTrip\<close>.\<close>

fun rejected :: "app_op \<Rightarrow> app_state \<Rightarrow> bool" where
  "rejected (DeleteTrip ident) s = (length (trips s) = 1)"
| "rejected _ s = False"

section \<open>Predicates of the specification\<close>

subsection \<open>Segments\<close>

text \<open>One segment per adjacent pair of checkpoints, in order, with their ids.\<close>

definition linked_pairs :: "Checkpoint list \<Rightarrow> (string \<times> string) list" where
  "linked_pairs cps = zip (map cp_id cps) (tl (map cp_id cps))"

definition segments_linked :: "Trip \<Rightarrow> bool" where
  "segments_linked t =
     (map (\<lambda>s. (fromId s, toId s)) (segments t) = linked_pairs (checkpoints t))"

text \<open>The operations that rebuild the segment list with \<open>syncSegments\<close>, and those among
  them that do so on every input (the two moves return the trip as it is when their guard
  fails).\<close>

fun regenerates :: "engine_op \<Rightarrow> bool" where
  "regenerates (UpdateSegmentFields f) = False"
| "regenerates (SetTripStartDate d) = False"
| "regenerates X = True"

fun always_regenerates :: "engine_op \<Rightarrow> bool" where
  "always_regenerates (InsertCheckpoint newId la lo nm cty targetCity) = True"
| "always_regenerates (DeleteCheckpoint ident) = True"
| "always_regenerates (DeleteDestination cityName) = True"
| "always_regenerates (UpdateCheckpointFields localForm) = True"
| "always_regenerates X = False"

subsection \<open>Order and time\<close>

text \<open>All checkpoints of one city occupy a contiguous range of indices.\<close>

definition city_contiguous :: "Checkpoint list \<Rightarrow> bool" where
  "city_contiguous cps =
     (\<forall>k < length cps. \<forall>j < k. \<forall>i < j.
        city (cps ! i) = city (cps ! k) \<longrightarrow> city (cps ! j) = city (cps ! i))"

text \<open>The same by recursion over a list of keys, as the proofs use it: behind the run of
  its own key that follows an element, the key does not occur again.\<close>

fun contig :: "'a list \<Rightarrow> bool" where
  "contig [] = True"
| "contig (x # xs) = (x \<notin> set (dropWhile (\<lambda>y. y = x) xs) \<and> contig xs)"

text \<open>The order by day, then by start time as a string; it needs both days to be numbers.\<close>

definition key_le :: "Checkpoint \<Rightarrow> Checkpoint \<Rightarrow> bool" where
  "key_le a b =
     (case (day a, day b) of
        (Num x, Num y) \<Rightarrow> x < y \<or> (x = y \<and> startTime a \<le> startTime b)
      | _ \<Rightarrow> False)"

text \<open>Within each city, every earlier checkpoint is below every later one in that order.\<close>

definition sorted_in_city :: "Checkpoint list \<Rightarrow> bool" where
  "sorted_in_city cps = sorted_wrt (\<lambda>a b. city a = city b \<longrightarrow> key_le a b) cps"

definition numeric_days :: "Checkpoint list \<Rightarrow> bool" where
  "numeric_days cps = list_all (\<lambda>c. day c \<noteq> NaN) cps"

text \<open>The operations that regroup and re-sort, and those that only remove checkpoints.\<close>

fun resorts :: "engine_op \<Rightarrow> bool" where
  "resorts (InsertCheckpoint newId la lo nm cty targetCity) = True"
| "resorts (UpdateCheckpointFields localForm) = True"
| "resorts X = False"

fun only_removes :: "engine_op \<Rightarrow> bool" where
  "only_removes (DeleteCheckpoint ident) = True"
| "only_removes (DeleteDestination cityName) = True"
| "only_removes X = False"

text \<open>
  The duration in the words of the specification: \<open>(end - start) / 60\<close> rounded to one
  decimal, with 1440 minutes added to the end first when the end is before the start.
\<close>

definition spec_duration :: "num \<Rightarrow> num \<Rightarrow> num" where
  "spec_duration startMins endMins =
     (let e = (if js_lt endMins startMins then js_add endMins (Num 1440) else endMins)
      in js_div (js_round (js_mul (js_div (js_sub e startMins) (Num 60)) (Num 10))) (Num 10))"

text \<open>A minute of the day as \<open>HH:MM\<close>.\<close>

definition two_digits :: "nat \<Rightarrow> string" where
  "two_digits n = [digit_char (n div 10), digit_char (n mod 10)]"

definition clock :: "nat \<Rightarrow> string" where
  "clock n = two_digits (n div 60) @ '':'' @ two_digits (n mod 60)"

section \<open>Examples\<close>

text \<open>
  A platform for the examples. The three conversions are one function that is exact on the
  arguments the examples pass: strings of decimal digits, the empty string for \<open>Number\<close>,
  the string \<open>abc\<close> and integral numbers. The distance is 2000 metres everywhere.
\<close>

definition is_digit :: "char \<Rightarrow> bool" where
  "is_digit c = (CHR ''0'' \<le> c \<and> c \<le> CHR ''9'')"

definition digits_value :: "string \<Rightarrow> nat" where
  "digits_value s = foldl (\<lambda>acc c. 10 * acc + (of_char c - 48)) 0 s"

definition demo_digits :: "string \<Rightarrow> num" where
  "demo_digits s = (if s \<noteq> [] \<and> list_all is_digit s then Num (of_nat (digits_value s)) else NaN)"

definition demo_Number :: "string \<Rightarrow> num" where
  "demo_Number s = (if s = [] then Num 0 else demo_digits s)"

fun demo_parse :: "jsval \<Rightarrow> num" where
  "demo_parse (JNum n) = n"
| "demo_parse (JStr s) = demo_digits s"

definition demo :: platform where
  "demo = \<lparr>js_Number = demo_Number, parseInt = demo_parse, parseFloat = demo_parse,
     distanceTo = (\<lambda>lat1 lng1 lat2 lng2. Num 2000)\<rparr>"

definition demo_cp :: "string \<Rightarrow> string \<Rightarrow> rat \<Rightarrow> string \<Rightarrow> string \<Rightarrow> Checkpoint" where
  "demo_cp ident cty d st en =
     \<lparr>cp_id = ident, cp_name = ident, lat = Num 27, lng = Num 78, cp_type = SIGHTSEEING,
      timeSpentHours = Num 2, startTime = st, endTime = en, day = Num d, cp_cost = Num 0,
      cp_notes = [], city = cty\<rparr>"

definition demo_seg :: "string \<Rightarrow> string \<Rightarrow> RouteSegment" where
  "demo_seg a b = \<lparr>fromId = a, toId = b, mode = BUS, distanceKm = Num 7, durationHours = Num 1,
     seg_cost = JNum (Num 40), safetyNote = ''keep left''\<rparr>"

text \<open>Two checkpoints in Agra with an edited segment between them; the first ends at
  18:00 on day 1.\<close>

definition demo_trip :: Trip where
  "demo_trip = INITIAL_TRIP\<lparr>
     checkpoints := [demo_cp ''a'' ''Agra'' 1 ''16:00'' ''18:00'', demo_cp ''b'' ''Agra'' 1 ''19:00'' ''21:00''],
     segments := [demo_seg ''a'' ''b'']\<rparr>"

text \<open>The example trip with a third checkpoint on day 2.\<close>

definition demo_trip3 :: Trip where
  "demo_trip3 = INITIAL_TRIP\<lparr>
     checkpoints := [demo_cp ''a'' ''Agra'' 1 ''16:00'' ''18:00'', demo_cp ''b'' ''Agra'' 1 ''19:00'' ''21:00'',
                     demo_cp ''c'' ''Agra'' 2 ''09:00'' ''11:00''],
     segments := [demo_seg ''a'' ''b'', demo_seg ''b'' ''c'']\<rparr>"

definition demo_state :: app_state where
  "demo_state = \<lparr>trips = [demo_trip], activeTripId = ''trip-1'', past = [], future = []\<rparr>"

text \<open>The form of the segment editor on the example trip after the duration field was set
  to the string \<open>dur\<close>, and after the fare field was set to \<open>abc\<close>.\<close>

definition demo_form :: "string \<Rightarrow> SegmentForm" where
  "demo_form dur = (openSegmentEditor (demo_seg ''a'' ''b''))\<lparr>sf_durationHours := JStr dur\<rparr>"

definition demo_form_fare :: SegmentForm where
  "demo_form_fare = (openSegmentEditor (demo_seg ''a'' ''b''))\<lparr>sf_cost := JStr ''abc''\<rparr>"


text \<open>Four checkpoints, grouped by city and sorted, with their segments.\<close>

definition demo_trip4 :: Trip where
  "demo_trip4 = INITIAL_TRIP\<lparr>
     checkpoints := [demo_cp ''a'' ''Agra'' 1 ''09:00'' ''11:00'', demo_cp ''c'' ''Agra'' 2 ''09:00'' ''11:00'',
                     demo_cp ''b'' ''Goa'' 3 ''09:00'' ''11:00'', demo_cp ''d'' ''Goa'' 4 ''09:00'' ''11:00''],
     segments := [demo_seg ''a'' ''c'', demo_seg ''c'' ''b'', demo_seg ''b'' ''d'']\<rparr>"

text \<open>
  A trip whose first checkpoint ends at midnight, with the segment that \<open>syncSegments\<close>
  synthesizes for 123 km: its duration is the double nearest to 4.1. The form is the one
  \<open>openSegmentEditor\<close> takes from that segment, saved unchanged.
\<close>

definition demo_seg41 :: RouteSegment where
  "demo_seg41 = \<lparr>fromId = ''a'', toId = ''b'', mode = TRAIN, distanceKm = Num 123,
     durationHours = Num (dbl (41 / 10)), seg_cost = JNum (Num 0), safetyNote = []\<rparr>"

definition demo_trip_midnight :: Trip where
  "demo_trip_midnight = INITIAL_TRIP\<lparr>
     checkpoints := [demo_cp ''a'' ''Agra'' 1 ''22:00'' ''00:00'', demo_cp ''b'' ''Delhi'' 2 ''09:00'' ''11:00''],
     segments := [demo_seg41]\<rparr>"

text \<open>The form of the segment editor on the example trip with the duration -20.\<close>

definition demo_form_negative :: SegmentForm where
  "demo_form_negative =
     (openSegmentEditor (demo_seg ''a'' ''b''))\<lparr>sf_durationHours := JNum (Num (- 20))\<rparr>"

section \<open>Verification\<close>

subsection \<open>The segment list follows the checkpoint list\<close>

lemma linked_pairs_index:
  "(map (\<lambda>s. (fromId s, toId s)) segs = linked_pairs cps) \<longleftrightarrow>
     (length segs = length cps - 1 \<and>
      (\<forall>i. Suc i < length cps \<longrightarrow>
         fromId (segs ! i) = cp_id (cps ! i) \<and> toId (segs ! i) = cp_id (cps ! Suc i)))"
  unfolding linked_pairs_def
  by (auto simp: list_eq_iff_nth_eq nth_tl)

lemma find_connects: "find (connects a b) ex = Some e \<Longrightarrow> fromId e = cp_id a \<and> toId e = cp_id b"
  by (auto simp: find_Some_iff connects_def)

lemma sync_pairs: "map (\<lambda>s. (fromId s, toId s)) (syncSegments P cps ex) = linked_pairs cps"
  by (induction P cps ex rule: syncSegments.induct)
     (auto simp: linked_pairs_def synthesize_def Let_def dest: find_connects split: option.splits)

lemma linked_initial: "segments_linked INITIAL_TRIP"
  by (simp add: segments_linked_def linked_pairs_def INITIAL_TRIP_def)

lemma linked_sync: "segments_linked (t\<lparr>checkpoints := cps, segments := syncSegments P cps ex\<rparr>)"
  by (simp add: segments_linked_def sync_pairs)

lemma linked_addCheckpoint: "segments_linked (addCheckpoint_updater P c t)"
  by (simp add: addCheckpoint_updater_def Let_def linked_sync)

lemma linked_handleSave_pin: "segments_linked (handleSave_pin P e f t)"
  by (simp add: handleSave_pin_def Let_def linked_sync)

lemma linked_deleteCheckpoint: "segments_linked (handleDeleteCheckpoint P e t)"
  by (simp add: handleDeleteCheckpoint_def Let_def linked_sync)

lemma linked_deleteDestination: "segments_linked (handleDeleteDestination P e t)"
  by (simp add: handleDeleteDestination_def Let_def linked_sync)

lemma linked_moveCheckpoint: "segments_linked t \<Longrightarrow> segments_linked (moveCheckpoint P e d t)"
  by (simp add: moveCheckpoint_def Let_def linked_sync)

lemma linked_moveDestination: "segments_linked t \<Longrightarrow> segments_linked (moveDestination P e d t)"
  by (simp add: moveDestination_def Let_def linked_sync)

lemma map_zip_upt_ids:
  assumes "\<And>c i. cp_id (f (c, i)) = cp_id c"
  shows "map (\<lambda>ci. cp_id (f ci)) (zip cps [0 ..< length cps]) = map cp_id cps"
  by (rule nth_equalityI) (simp_all add: assms)

lemma cp_id_shift: "cp_id (shift_checkpoint ti d a tm sh (c, i)) = cp_id c"
  by (simp add: shift_checkpoint_def)

lemma checkpoints_ids_handleSave_segment:
  "map cp_id (checkpoints (handleSave_segment P a b f t)) = map cp_id (checkpoints t)"
  unfolding handleSave_segment_def Let_def
  by (simp add: map_zip_upt_ids cp_id_shift comp_def)

lemma segments_ids_handleSave_segment:
  "map (\<lambda>s. (fromId s, toId s)) (segments (handleSave_segment P (sf_fromId f) (sf_toId f) f t))
     = map (\<lambda>s. (fromId s, toId s)) (segments t)"
  unfolding handleSave_segment_def Let_def
  by (auto simp: form_segment_def)

lemma linked_handleSave_segment:
  "segments_linked t \<Longrightarrow> segments_linked (handleSave_segment P (sf_fromId f) (sf_toId f) f t)"
  unfolding segments_linked_def linked_pairs_def
  by (simp add: checkpoints_ids_handleSave_segment segments_ids_handleSave_segment)

lemma linked_run_op: "segments_linked t \<Longrightarrow> segments_linked (run_op P X t)"
  by (cases X)
     (simp_all add: linked_addCheckpoint linked_handleSave_pin linked_deleteCheckpoint
        linked_deleteDestination linked_moveCheckpoint linked_moveDestination
        linked_handleSave_segment, simp add: segments_linked_def updateTripStartDate_def)

lemma linked_always: "always_regenerates X \<Longrightarrow> segments_linked (run_op P X t)"
  by (cases X)
     (simp_all add: linked_addCheckpoint linked_handleSave_pin linked_deleteCheckpoint
        linked_deleteDestination)

lemma run_op_regenerates:
  "regenerates X \<Longrightarrow>
     run_op P X t = t \<or>
     segments (run_op P X t) = syncSegments P (checkpoints (run_op P X t)) (segments t)"
  by (cases X)
     (simp_all add: addCheckpoint_updater_def handleSave_pin_def handleDeleteCheckpoint_def
        handleDeleteDestination_def moveCheckpoint_def moveDestination_def Let_def)

text \<open>
  C1. Every operation of the engine keeps the segment list in step with the checkpoint
  list: on a trip whose segments connect its adjacent checkpoints, and on any trip at all
  when the operation is an insertion, a deletion or a checkpoint edit, the result has
  \<open>max 0 (n - 1)\<close> segments for its \<open>n\<close> checkpoints, and segment \<open>i\<close> leads from
  checkpoint \<open>i\<close> to checkpoint \<open>i + 1\<close>.
\<close>

theorem segments_follow_checkpoints:
  assumes "segments_linked t \<or> always_regenerates X"
  shows "int (length (segments (run_op P X t))) =
           max 0 (int (length (checkpoints (run_op P X t))) - 1) \<and>
    (\<forall>i. Suc i < length (checkpoints (run_op P X t)) \<longrightarrow>
        fromId (segments (run_op P X t) ! i) = cp_id (checkpoints (run_op P X t) ! i) \<and>
        toId (segments (run_op P X t) ! i) = cp_id (checkpoints (run_op P X t) ! Suc i))"
proof -
  have "segments_linked (run_op P X t)"
    using assms linked_run_op linked_always by blast
  then have "length (segments (run_op P X t)) = length (checkpoints (run_op P X t)) - 1 \<and>
    (\<forall>i. Suc i < length (checkpoints (run_op P X t)) \<longrightarrow>
        fromId (segments (run_op P X t) ! i) = cp_id (checkpoints (run_op P X t) ! i) \<and>
        toId (segments (run_op P X t) ! i) = cp_id (checkpoints (run_op P X t) ! Suc i))"
    unfolding segments_linked_def linked_pairs_index .
  moreover have "int (n - 1) = max 0 (int n - 1)" for n :: nat
    by (cases n) auto
  ultimately show ?thesis by simp
qed

theorem segments_follow_checkpoints_witness:
  "segments_linked demo_trip \<and>
   checkpoints (run_op demo (MoveCheckpoint ''a'' 1) demo_trip) =
      [demo_cp ''b'' ''Agra'' 1 ''19:00'' ''21:00'', demo_cp ''a'' ''Agra'' 1 ''16:00'' ''18:00''] \<and>
   int (length (segments (run_op demo (MoveCheckpoint ''a'' 1) demo_trip))) = 1 \<and>
   fromId (segments (run_op demo (MoveCheckpoint ''a'' 1) demo_trip) ! 0) = ''b'' \<and>
   toId (segments (run_op demo (MoveCheckpoint ''a'' 1) demo_trip) ! 0) = ''a''"
proof -
  have l: "segments_linked demo_trip"
    by (simp add: segments_linked_def linked_pairs_def demo_trip_def demo_cp_def demo_seg_def
        INITIAL_TRIP_def)
  have c: "checkpoints (run_op demo (MoveCheckpoint ''a'' 1) demo_trip) =
      [demo_cp ''b'' ''Agra'' 1 ''19:00'' ''21:00'', demo_cp ''a'' ''Agra'' 1 ''16:00'' ''18:00'']"
    by (simp add: moveCheckpoint_def demo_trip_def demo_cp_def INITIAL_TRIP_def Let_def)
  show ?thesis
    using segments_follow_checkpoints [of demo_trip "MoveCheckpoint ''a'' 1" demo] l c
    by (simp add: demo_cp_def)
qed

subsection \<open>Preserved and synthesized segments\<close>

lemma sync_nth:
  "Suc i < length cps \<Longrightarrow>
   syncSegments P cps ex ! i =
     (case find (connects (cps ! i) (cps ! Suc i)) ex of
        Some e \<Rightarrow> e | None \<Rightarrow> synthesize P (cps ! i) (cps ! Suc i))"
proof (induction P cps ex arbitrary: i rule: syncSegments.induct)
  case (1 P a b rest ex)
  then show ?case by (cases i) (simp_all split: option.splits)
qed simp_all

lemma linked_unique:
  assumes "segments_linked t" "distinct (map cp_id (checkpoints t))"
    "s \<in> set (segments t)" "s' \<in> set (segments t)" "fromId s = fromId s'"
  shows "s = s'"
proof -
  have "map fromId (segments t) = map fst (linked_pairs (checkpoints t))"
    using assms(1) unfolding segments_linked_def
    by (metis (mono_tags, lifting) fst_conv map_eq_conv map_map o_apply)
  also have "\<dots> = butlast (map cp_id (checkpoints t))"
    unfolding linked_pairs_def
    by (cases "checkpoints t") (simp_all add: map_fst_zip_take butlast_conv_take min_def)
  finally have "distinct (map fromId (segments t))"
    using assms(2) by (simp add: distinct_butlast)
  then have "inj_on fromId (set (segments t))"
    by (simp add: distinct_map)
  then show ?thesis using assms(3-5) by (auto dest: inj_onD)
qed

text \<open>
  C2. Segment preservation. On a trip with distinct checkpoint ids whose segments connect
  its adjacent checkpoints, take any operation that regenerates the segments. If a segment
  from \<open>A\<close> to \<open>B\<close> existed before and \<open>A\<close>, \<open>B\<close> are adjacent in this order afterwards,
  the segment at their position is that very segment: mode, distance, duration, cost and
  safety note are the old ones.
\<close>

theorem adjacent_segment_preserved:
  assumes "segments_linked t" and "distinct (map cp_id (checkpoints t))" and "regenerates X"
    and "Suc i < length (checkpoints (run_op P X t))"
    and "s \<in> set (segments t)"
    and "fromId s = cp_id (checkpoints (run_op P X t) ! i)"
    and "toId s = cp_id (checkpoints (run_op P X t) ! Suc i)"
  shows "segments (run_op P X t) ! i = s"
proof -
  let ?t' = "run_op P X t"
  consider "?t' = t" | "segments ?t' = syncSegments P (checkpoints ?t') (segments t)"
    using run_op_regenerates [OF assms(3)] by blast
  then show ?thesis
  proof cases
    case 1
    have "length (segments t) = length (checkpoints t) - 1"
      and "fromId (segments t ! i) = cp_id (checkpoints t ! i)"
      using assms(1,4) 1 unfolding segments_linked_def linked_pairs_index by auto
    then have "segments t ! i \<in> set (segments t)" "fromId (segments t ! i) = fromId s"
      using assms(4,6) 1 by auto
    then show ?thesis using linked_unique [OF assms(1,2) _ assms(5)] 1 by auto
  next
    case 2
    have "connects (checkpoints ?t' ! i) (checkpoints ?t' ! Suc i) s"
      using assms(6,7) by (simp add: connects_def)
    then obtain e where e: "find (connects (checkpoints ?t' ! i) (checkpoints ?t' ! Suc i)) (segments t) = Some e"
      using assms(5) by (cases "find (connects (checkpoints ?t' ! i) (checkpoints ?t' ! Suc i)) (segments t)")
        (auto simp: find_None_iff)
    then have "e \<in> set (segments t)" "fromId e = fromId s"
      using assms(6) by (auto simp: find_Some_iff connects_def)
    then have "e = s" using linked_unique [OF assms(1,2) _ assms(5)] by auto
    then show ?thesis using 2 e sync_nth [OF assms(4)] by simp
  qed
qed


theorem adjacent_segment_preserved_witness:
  "segments_linked demo_trip \<and> distinct (map cp_id (checkpoints demo_trip)) \<and>
   regenerates (InsertCheckpoint ''c'' (Num 27) (Num 78) ''c'' ''Agra'' None) \<and>
   checkpoints (run_op demo (InsertCheckpoint ''c'' (Num 27) (Num 78) ''c'' ''Agra'' None) demo_trip) =
     [demo_cp ''c'' ''Agra'' 1 ''09:00'' ''11:00'', demo_cp ''a'' ''Agra'' 1 ''16:00'' ''18:00'',
      demo_cp ''b'' ''Agra'' 1 ''19:00'' ''21:00''] \<and>
   demo_seg ''a'' ''b'' \<in> set (segments demo_trip) \<and>
   segments (run_op demo (InsertCheckpoint ''c'' (Num 27) (Num 78) ''c'' ''Agra'' None) demo_trip) ! 1 =
     demo_seg ''a'' ''b''"
proof -
  let ?X = "InsertCheckpoint ''c'' (Num 27) (Num 78) ''c'' ''Agra'' None"
  have l: "segments_linked demo_trip"
    by (simp add: segments_linked_def linked_pairs_def demo_trip_def demo_cp_def demo_seg_def
        INITIAL_TRIP_def)
  have d: "distinct (map cp_id (checkpoints demo_trip))"
    by (simp add: demo_trip_def demo_cp_def INITIAL_TRIP_def)
  have r: "regenerates ?X"
    by simp
  have c: "checkpoints (run_op demo ?X demo_trip) =
     [demo_cp ''c'' ''Agra'' 1 ''09:00'' ''11:00'', demo_cp ''a'' ''Agra'' 1 ''16:00'' ''18:00'',
      demo_cp ''b'' ''Agra'' 1 ''19:00'' ''21:00'']"
    by code_simp
  have m: "demo_seg ''a'' ''b'' \<in> set (segments demo_trip)"
    by (simp add: demo_trip_def)
  have n: "Suc 1 < length (checkpoints (run_op demo ?X demo_trip))"
    unfolding c by simp
  have f: "fromId (demo_seg ''a'' ''b'') = cp_id (checkpoints (run_op demo ?X demo_trip) ! 1)"
    unfolding c by (simp add: demo_seg_def demo_cp_def)
  have g: "toId (demo_seg ''a'' ''b'') = cp_id (checkpoints (run_op demo ?X demo_trip) ! Suc 1)"
    unfolding c by (simp add: demo_seg_def demo_cp_def)
  show ?thesis
    using l d r c m adjacent_segment_preserved [OF l d r n m f g] by (intro conjI) assumption+
qed




subsection \<open>The arrival cascade\<close>

text \<open>Rounding to doubles at a few values: one tenth, 4.1, a tie that goes down to the even
  neighbour and one that goes up, and a negative number.\<close>

lemma dbl_samples:
  "dbl (1 / 10) = 3602879701896397 / 36028797018963968"
  "dbl (41 / 10) = 2308094809027379 / 562949953421312"
  "dbl 9007199254740993 = 9007199254740992"
  "dbl 9007199254740995 = 9007199254740996"
  "dbl (- 1 / 7) = - 2573485501354569 / 18014398509481984"
  "dbl 1080 = 1080"
  by code_simp+

lemma findIndex_find:
  "find p xs = Some x \<Longrightarrow>
     findIndex p xs \<noteq> - 1 \<and> 0 \<le> findIndex p xs \<and> nat (findIndex p xs) < length xs \<and>
     xs ! nat (findIndex p xs) = x"
proof (induction xs)
  case Nil
  then show ?case by simp
next
  case (Cons y ys)
  show ?case
  proof (cases "p y")
    case True
    with Cons.prems show ?thesis by simp
  next
    case False
    with Cons.prems have "find p ys = Some x" by simp
    from Cons.IH [OF this] False show ?thesis
      by (simp add: Let_def nat_add_distrib)
  qed
qed

text \<open>
  What the cascade stores. When both endpoints exist, let \<open>total\<close> be the minutes of the end
  time of \<open>from\<close> (of its start time when the end time is empty, of 09:00 when both are)
  plus 60 times the duration, as doubles. Then \<open>to\<close> gets \<open>minutesToTime total\<close> as its start,
  the day \<open>from.day + floor (total / 1440)\<close>, and \<open>minutesToTime\<close> of \<open>total\<close> plus 60 times its
  dwell hours as its end; every checkpoint behind \<open>to\<close> has the change of the day of \<open>to\<close>
  added to its day, and the checkpoints before \<open>to\<close> are untouched.
\<close>

lemma cascade_structure:
  assumes "find (\<lambda>c. cp_id c = sf_fromId f) (checkpoints t) = Some fromCp"
    and "find (\<lambda>c. cp_id c = sf_toId f) (checkpoints t) = Some toCp"
  shows "let cps = checkpoints t;
             cps' = checkpoints (run_op P (UpdateSegmentFields f) t);
             toIdx = nat (findIndex (\<lambda>c. cp_id c = sf_toId f) cps);
             dur = num_or (parseFloat P (sf_durationHours f)) (Num 0);
             total = add64 (timeToMinutes P (str_or (endTime fromCp) (str_or (startTime fromCp) ''09:00'')))
                       (mul64 dur (Num 60));
             newDay = add64 (day fromCp) (js_floor (div64 total (Num 1440)))
         in length cps' = length cps \<and> toIdx < length cps \<and> cps ! toIdx = toCp \<and>
            cps' ! toIdx =
              toCp\<lparr>day := newDay, startTime := minutesToTime total,
                   endTime := minutesToTime (add64 total (mul64 (timeSpentHours toCp) (Num 60)))\<rparr> \<and>
            (\<forall>k < length cps. toIdx < k \<longrightarrow>
               cps' ! k = (cps ! k)\<lparr>day := add64 (day (cps ! k)) (sub64 newDay (day toCp))\<rparr>) \<and>
            (\<forall>k < toIdx. cps' ! k = cps ! k)"
proof -
  note a = findIndex_find [OF assms(1)] and b = findIndex_find [OF assms(2)]
  show ?thesis
    using a b
    by (simp add: handleSave_segment_def Let_def shift_checkpoint_def)
qed

text \<open>The two examples of the specification: with \<open>A\<close> ending at 18:00 on day 1, three hours
  give \<open>B\<close> the start 21:00 on day 1, and eight hours the start 02:00 on day 2 and move the
  checkpoint behind \<open>B\<close> from day 2 to day 3.\<close>

lemma cascade_three_hours:
  "checkpoints (run_op demo (UpdateSegmentFields (demo_form ''3'')) demo_trip3) =
     [demo_cp ''a'' ''Agra'' 1 ''16:00'' ''18:00'', demo_cp ''b'' ''Agra'' 1 ''21:00'' ''23:00'',
      demo_cp ''c'' ''Agra'' 2 ''09:00'' ''11:00'']"
  by code_simp

lemma cascade_eight_hours:
  "checkpoints (run_op demo (UpdateSegmentFields (demo_form ''8'')) demo_trip3) =
     [demo_cp ''a'' ''Agra'' 1 ''16:00'' ''18:00'', demo_cp ''b'' ''Agra'' 2 ''02:00'' ''04:00'',
      demo_cp ''c'' ''Agra'' 3 ''09:00'' ''11:00'']"
  by code_simp

text \<open>
  C5. The start of \<open>to\<close> is not always the end of \<open>from\<close> plus the duration, and its end not
  always its start plus its dwell time. For the duration 4.1 the product with 60 is the
  double just below 246, and \<open>Math.floor\<close> cuts it to 245: after a checkpoint that ends at
  00:00, the next one starts at 04:05, not 04:06, and with two hours of dwell it ends at
  06:06, two hours and one minute after its start. For the duration -20 after a checkpoint
  that ends at 18:00 on day 1 the remainder of the minutes is negative: the start is the
  string \<open>-2:00\<close> on day 0.
\<close>

theorem arrival_minute_cut_off:
  "mul64 (Num (dbl (41 / 10))) (Num 60) = Num (8655355533852671 / 35184372088832) \<and>
   (8655355533852671 / 35184372088832 :: rat) < 246 \<and>
   checkpoints (run_op demo (UpdateSegmentFields (openSegmentEditor demo_seg41)) demo_trip_midnight) =
     [demo_cp ''a'' ''Agra'' 1 ''22:00'' ''00:00'', demo_cp ''b'' ''Delhi'' 1 ''04:05'' ''06:06''] \<and>
   checkpoints (run_op demo (UpdateSegmentFields demo_form_negative) demo_trip3) =
     [demo_cp ''a'' ''Agra'' 1 ''16:00'' ''18:00'', demo_cp ''b'' ''Agra'' 0 ''-2:00'' ''00:00'',
      demo_cp ''c'' ''Agra'' 1 ''09:00'' ''11:00'']"
  by code_simp

subsection \<open>History\<close>

lemma recorded:
  assumes "run_app P X s = Inr s'" and "\<not> rejected X s"
  shows "past s' = slice_last24 (past s) @ [trips s] \<and> future s' = []"
proof (cases X)
  case (CreateNewTrip newId)
  with assms show ?thesis by (auto simp: createNewTrip_def recordAction_def Let_def)
next
  case (DeleteTrip ident)
  with assms show ?thesis
    by (auto simp: deleteTrip_def recordAction_def Let_def split: if_splits list.splits)
next
  case (RenameActiveTrip newName)
  with assms show ?thesis by (auto simp: renameActiveTrip_def recordAction_def)
next
  case (Engine Y)
  with assms show ?thesis
    by (cases Y) (auto simp: addCheckpoint_def updateActiveTrip_def recordAction_def split: option.splits)
qed


text \<open>\<open>undo\<close> and \<open>redo\<close> move one snapshot between the two histories, so the two together
  never hold more than the 25 that a recorded operation leaves.\<close>

lemma undo_keeps_snapshots:
  "length (past (undo s)) + length (future (undo s)) = length (past s) + length (future s)"
  by (cases "past s = []") (simp_all add: undo_def Let_def)

lemma redo_keeps_snapshots:
  "length (past (redo s)) + length (future (redo s)) = length (past s) + length (future s)"
  by (cases "future s") (simp_all add: redo_def)


text \<open>
  C10. Every operation that is carried out puts the trip list it found on top of the undo
  history and empties the redo history, so that \<open>redo\<close> directly after it changes nothing.
\<close>

theorem mutation_records_history:
  assumes "run_app P X s = Inr s'" and "\<not> rejected X s"
  shows "past s' \<noteq> [] \<and> last (past s') = trips s \<and> future s' = [] \<and> redo s' = s'"
  using recorded [OF assms] by (simp add: redo_def)


theorem mutation_records_history_witness:
  "run_app demo (RenameActiveTrip ''Hills'') demo_state = Inr (renameActiveTrip ''Hills'' demo_state) \<and>
   \<not> rejected (RenameActiveTrip ''Hills'') demo_state \<and>
   past (renameActiveTrip ''Hills'' demo_state) = [ [demo_trip] ] \<and>
   future (renameActiveTrip ''Hills'' demo_state) = [] \<and>
   redo (renameActiveTrip ''Hills'' demo_state) = renameActiveTrip ''Hills'' demo_state"
proof -
  have a: "run_app demo (RenameActiveTrip ''Hills'') demo_state = Inr (renameActiveTrip ''Hills'' demo_state)"
    by simp
  have b: "\<not> rejected (RenameActiveTrip ''Hills'') demo_state"
    by simp
  have c: "past (renameActiveTrip ''Hills'' demo_state) = [ [demo_trip] ]"
    by (simp add: renameActiveTrip_def recordAction_def slice_last24_def demo_state_def)
  show ?thesis
    using mutation_records_history [OF a b] a b c by simp
qed

subsection \<open>Operations on references that do not exist\<close>

lemma moveCheckpoint_unknown_id:
  "findIndex (\<lambda>c. cp_id c = ident) (checkpoints t) = - 1 \<Longrightarrow> moveCheckpoint P ident delta t = t"
  by (simp add: moveCheckpoint_def)

lemma moveCheckpoint_first_up:
  "checkpoints t = c # cs \<Longrightarrow> moveCheckpoint P (cp_id c) (- 1) t = t"
  by (simp add: moveCheckpoint_def)

lemma deleteTrip_single: "length (trips s) = 1 \<Longrightarrow> deleteTrip ident s = Inr s"
  by (simp add: deleteTrip_def)

text \<open>
  C6. \<open>moveDestination\<close> does not test whether the city was found, as \<open>moveCheckpoint\<close>
  tests its index: for a city that is not in the trip \<open>indexOf\<close> gives -1, with delta 1 the
  target index 0 passes the bounds check, and the swap overwrites the first city of the
  order by \<open>undefined\<close>. On the example trip, whose two checkpoints are in Agra, moving the
  absent city Goa by 1 returns a trip without checkpoints and segments, not the trip itself.
\<close>

theorem moveDestination_unknown_city_evaluated:
  "run_op demo (MoveDestination ''Goa'' 1) demo_trip = demo_trip\<lparr>checkpoints := [], segments := []\<rparr> \<and>
   ''Goa'' \<notin> city ` set (checkpoints demo_trip) \<and>
   run_op demo (MoveDestination ''Goa'' 1) demo_trip \<noteq> demo_trip"
  by code_simp

subsection \<open>Coercion of form values\<close>

lemma sanitizedForm_defaults:
  "parseInt P (pf_day f) = NaN \<Longrightarrow> day (sanitizedForm P f) = Num 1"
  "parseInt P (pf_cost f) = NaN \<Longrightarrow> cp_cost (sanitizedForm P f) = Num 0"
  "parseFloat P (pf_timeSpentHours f) = NaN \<Longrightarrow> timeSpentHours (sanitizedForm P f) = Num 0"
  by (simp_all add: sanitizedForm_def)

text \<open>
  C9. The branch of \<open>handleSave\<close> for a segment whose endpoints exist stores the fare of the
  form as it is; only the branch for a segment without endpoints converts it. With the fare
  field set to \<open>abc\<close>, which \<open>parseInt\<close> turns into \<open>NaN\<close>, the segment of the example trip
  keeps the string \<open>abc\<close> as its cost; the same form on a trip without checkpoints gives
  the cost 0.
\<close>

theorem segment_fare_kept_unconverted:
  "segments (run_op demo (UpdateSegmentFields demo_form_fare) demo_trip) =
     [(demo_seg ''a'' ''b'')\<lparr>seg_cost := JStr ''abc''\<rparr>] \<and>
   parseInt demo (JStr ''abc'') = NaN \<and>
   segments (handleSave_segment demo ''a'' ''b'' demo_form_fare (demo_trip\<lparr>checkpoints := []\<rparr>)) =
     [(demo_seg ''a'' ''b'')\<lparr>seg_cost := JNum (Num 0)\<rparr>]"
  by code_simp

subsection \<open>Time utilities\<close>

lemma floor_div_int:
  fixes r :: rat
  assumes "0 < d"
  shows "\<lfloor>r / of_int d\<rfloor> = \<lfloor>r\<rfloor> div d"
proof -
  have "\<lfloor>r / of_int d\<rfloor> = \<lfloor>(of_rat (r / of_int d) :: real)\<rfloor>"
    by (simp only: of_rat_floor)
  also have "\<dots> = \<lfloor>(of_rat r :: real) / of_int d\<rfloor>"
    by (simp add: of_rat_divide)
  also have "\<dots> = \<lfloor>(of_rat r :: real)\<rfloor> div d"
    using assms by (simp add: floor_divide_real_eq_div)
  also have "\<dots> = \<lfloor>r\<rfloor> div d"
    by (simp add: of_rat_floor)
  finally show ?thesis .
qed

lemma trunc_nonneg: "0 \<le> q \<Longrightarrow> trunc q = \<lfloor>q\<rfloor>"
  by (simp add: trunc_def)

lemma rem_nonneg:
  assumes "0 \<le> r" and "0 < d"
  shows "js_floor (js_rem (Num r) (Num (of_int d))) = Num (of_int (\<lfloor>r\<rfloor> mod d))"
proof -
  have q: "trunc (r / of_int d) = \<lfloor>r\<rfloor> div d"
    using assms by (simp add: trunc_nonneg floor_div_int)
  have "\<lfloor>r - of_int d * of_int (\<lfloor>r\<rfloor> div d)\<rfloor> = \<lfloor>r\<rfloor> - d * (\<lfloor>r\<rfloor> div d)"
    by (metis floor_diff_of_int of_int_mult)
  also have "\<dots> = \<lfloor>r\<rfloor> mod d"
    by (simp add: minus_mult_div_eq_mod)
  finally show ?thesis
    using assms(2) by (simp add: q)
qed

lemma rem_int_nonneg:
  assumes "0 \<le> b" and "0 < d"
  shows "js_rem (Num (of_int b)) (Num (of_int d)) = Num (of_int (b mod d))"
proof -
  have q: "trunc (of_int b / of_int d) = b div d"
    using assms by (simp add: trunc_nonneg floor_divide_of_int_eq)
  have "(of_int b :: rat) - of_int d * of_int (b div d) = of_int (b - d * (b div d))"
    by simp
  also have "\<dots> = of_int (b mod d)"
    by (simp add: minus_mult_div_eq_mod)
  finally show ?thesis
    using assms(2) by (simp add: q)
qed

lemma digit_zero: "digit_char 0 = CHR ''0''"
  by code_simp

lemma pad_show_nat: "n < 100 \<Longrightarrow> padStart2 (show_nat n) = two_digits n"
proof (cases "n < 10")
  case True
  then show ?thesis
    by (simp add: show_nat.simps [of n] padStart2_def two_digits_def digit_zero)
next
  case False
  assume "n < 100"
  with False have "n div 10 < 10" by simp
  with False show ?thesis
    by (simp add: show_nat.simps [of n] show_nat.simps [of "n div 10"] padStart2_def two_digits_def)
qed

lemma show_int_nonneg: "0 \<le> k \<Longrightarrow> show_int k = show_nat (nat k)"
  by (simp add: show_int_def)

lemma minutesToTime_nonneg:
  assumes "0 \<le> r"
  shows "minutesToTime (Num r) = clock (nat \<lfloor>r\<rfloor> mod 1440)"
proof -
  define b where "b = \<lfloor>r\<rfloor> mod 1440"
  have b: "0 \<le> b" "b < 1440" by (simp_all add: b_def)
  have mins: "js_floor (js_rem (Num r) (Num 1440)) = Num (of_int b)"
    using rem_nonneg [OF assms, of 1440] by (simp add: b_def)
  have h: "js_floor (js_div (Num (of_int b)) (Num 60)) = Num (of_int (b div 60))"
    using floor_divide_of_int_eq [of b 60, where ?'a = rat] by simp
  have m: "js_rem (Num (of_int b)) (Num 60) = Num (of_int (b mod 60))"
    using rem_int_nonneg [OF b(1), of 60] by simp
  have nb: "nat b = nat \<lfloor>r\<rfloor> mod 1440"
    using assms by (simp add: b_def nat_mod_distrib)
  have hs: "padStart2 (num_toString (Num (of_int (b div 60)))) = two_digits (nat b div 60)"
  proof -
    have "0 \<le> b div 60" "nat (b div 60) < 100" using b by (auto simp: nat_div_distrib)
    then show ?thesis
      using b by (simp add: show_int_nonneg pad_show_nat nat_div_distrib)
  qed
  have ms: "padStart2 (num_toString (Num (of_int (b mod 60)))) = two_digits (nat b mod 60)"
  proof -
    have "0 \<le> b mod 60" "nat (b mod 60) < 100" using b by (auto simp: nat_mod_distrib)
    then show ?thesis
      using b by (simp add: show_int_nonneg pad_show_nat nat_mod_distrib)
  qed
  show ?thesis
    unfolding minutesToTime_def Let_def mins h m hs ms clock_def nb ..
qed

lemma split_colon_plain: "CHR '':'' \<notin> set s \<Longrightarrow> split_colon s = [s]"
  by (induction s) auto

lemma split_colon_pair:
  "CHR '':'' \<notin> set h \<Longrightarrow> CHR '':'' \<notin> set m \<Longrightarrow> split_colon (h @ CHR '':'' # m) = [h, m]"
  by (induction h) (auto simp: split_colon_plain)

text \<open>The remainder of a negative number of minutes is negative, and the time string with
  it: one hour before midnight does not come out as 23:00.\<close>

lemma minutesToTime_negative: "minutesToTime (Num (- 60)) = ''-1:00''"
  by code_simp

text \<open>
  C8, as amended. The time utilities: the empty string parses to 0 minutes and a string
  \<open>h:m\<close> to \<open>Number h * 60 + Number m\<close>. For non-empty start and end the duration is
  \<open>(end - start) / 60\<close> rounded to one decimal, with 1440 added to the end first when it is
  before the start; when the start or the end is empty the duration is 0. A non-negative
  number of minutes is converted to the time of day of its whole minutes modulo 1440.
\<close>

theorem time_utilities:
  "timeToMinutes P [] = Num 0 \<and>
   (CHR '':'' \<notin> set h \<and> CHR '':'' \<notin> set m \<longrightarrow>
      timeToMinutes P (h @ CHR '':'' # m) = js_add (js_mul (js_Number P h) (Num 60)) (js_Number P m)) \<and>
   (start \<noteq> [] \<and> end \<noteq> [] \<longrightarrow>
      calculateDuration P start end = spec_duration (timeToMinutes P start) (timeToMinutes P end)) \<and>
   (start = [] \<or> end = [] \<longrightarrow> calculateDuration P start end = Num 0) \<and>
   (0 \<le> r \<longrightarrow> minutesToTime (Num r) = clock (nat \<lfloor>r\<rfloor> mod 1440))"
  by (simp add: timeToMinutes_def split_colon_pair calculateDuration_def spec_duration_def Let_def
      minutesToTime_nonneg)

theorem time_utilities_witness:
  "CHR '':'' \<notin> set ''18'' \<and> CHR '':'' \<notin> set ''30'' \<and>
   timeToMinutes demo ''18:30'' = Num 1110 \<and>
   calculateDuration demo ''22:00'' ''01:00'' = Num 3 \<and>
   calculateDuration demo [] ''10:00'' = Num 0 \<and>
   (0 :: rat) \<le> 1560 \<and> minutesToTime (Num 1560) = ''02:00''"
proof -
  have e1: "js_add (js_mul (js_Number demo ''18'') (Num 60)) (js_Number demo ''30'') = Num 1110"
    by code_simp
  have e2: "spec_duration (timeToMinutes demo ''22:00'') (timeToMinutes demo ''01:00'') = Num 3"
    by code_simp
  have e3: "clock (nat \<lfloor>1560 :: rat\<rfloor> mod 1440) = ''02:00''"
    by code_simp
  show ?thesis
    using time_utilities [of demo "''18''" "''30''" "''22:00''" "''01:00''" 1560]
      time_utilities [of demo "''18''" "''30''" "[]" "''10:00''" 1560] e1 e2 e3
    by simp
qed

text \<open>C8 as the specification states it fails for an empty start: the guard of
  \<open>calculateDuration\<close> returns 0, where ten hours lie between minute 0 and 10:00.\<close>

theorem duration_of_empty_start:
  "calculateDuration demo [] ''10:00'' \<noteq>
     spec_duration (timeToMinutes demo []) (timeToMinutes demo ''10:00'')"
  by code_simp

subsection \<open>Grouping by city and sorting\<close>

lemma set_foldl_set_add: "set (foldl set_add acc xs) = set acc \<union> set xs"
  by (induction xs arbitrary: acc) (auto simp: set_add_def)

lemma distinct_foldl_set_add: "distinct acc \<Longrightarrow> distinct (foldl set_add acc xs)"
  by (induction xs arbitrary: acc) (auto simp: set_add_def)

lemma set_from_Set: "set (from_Set xs) = set xs"
  by (simp add: from_Set_def set_foldl_set_add)

lemma distinct_from_Set: "distinct (from_Set xs)"
  by (simp add: from_Set_def distinct_foldl_set_add)

lemma set_sort_insert: "set (sort_insert cmp x ys) = insert x (set ys)"
  by (induction ys) auto

lemma set_js_sort: "set (js_sort cmp xs) = set xs"
  by (induction xs) (auto simp: set_sort_insert)

lemma length_sort_insert: "length (sort_insert cmp x ys) = Suc (length ys)"
  by (induction ys) auto

lemma length_js_sort: "length (js_sort cmp xs) = length xs"
  by (induction xs) (auto simp: length_sort_insert)

lemma is_pos_byDayThenStart:
  "day a \<noteq> NaN \<Longrightarrow> day b \<noteq> NaN \<Longrightarrow> is_pos (byDayThenStart a b) \<longleftrightarrow> \<not> key_le a b"
  by (cases "day a"; cases "day b")
     (auto simp: byDayThenStart_def key_le_def localeCompare_def str_or_def)

lemma key_le_total: "day a \<noteq> NaN \<Longrightarrow> day b \<noteq> NaN \<Longrightarrow> key_le a b \<or> key_le b a"
  by (cases "day a"; cases "day b") (auto simp: key_le_def)

lemma key_le_trans: "key_le a b \<Longrightarrow> key_le b c \<Longrightarrow> key_le a c"
  by (cases "day a"; cases "day b"; cases "day c") (auto simp: key_le_def)

lemma sorted_sort_insert:
  assumes "sorted_wrt key_le ys" and "day x \<noteq> NaN" and "\<forall>y \<in> set ys. day y \<noteq> NaN"
  shows "sorted_wrt key_le (sort_insert byDayThenStart x ys)"
  using assms
proof (induction ys)
  case Nil
  then show ?case by simp
next
  case (Cons y ys)
  show ?case
  proof (cases "key_le x y")
    case True
    then have "\<forall>z \<in> set ys. key_le x z"
      using Cons.prems(1) key_le_trans by auto
    with True Cons.prems show ?thesis
      by (simp add: is_pos_byDayThenStart)
  next
    case False
    then have "key_le y x"
      using key_le_total Cons.prems by auto
    with False Cons show ?thesis
      by (auto simp: is_pos_byDayThenStart set_sort_insert)
  qed
qed

lemma sorted_js_sort:
  "\<forall>x \<in> set xs. day x \<noteq> NaN \<Longrightarrow> sorted_wrt key_le (js_sort byDayThenStart xs)"
  by (induction xs) (auto simp: sorted_sort_insert set_js_sort)

lemma contig_nth:
  "contig ks \<Longrightarrow> i < j \<Longrightarrow> j < k \<Longrightarrow> k < length ks \<Longrightarrow> ks ! i = ks ! k \<Longrightarrow> ks ! j = ks ! i"
proof (induction ks arbitrary: i j k)
  case Nil
  then show ?case by simp
next
  case (Cons x xs)
  show ?case
  proof (cases i)
    case (Suc i')
    with Cons.prems obtain j' k' where "j = Suc j'" "k = Suc k'"
      by (metis Suc_lessE)
    with Suc Cons show ?thesis by auto
  next
    case 0
    from Cons.prems obtain j' k' where jk: "j = Suc j'" "k = Suc k'" "j' < k'" "k' < length xs"
      by (metis Suc_lessE Suc_less_eq length_Cons less_Suc_eq_0_disj not_less0 0)
    let ?n = "length (takeWhile (\<lambda>y. y = x) xs)"
    have xk: "xs ! k' = x" using Cons.prems 0 jk by simp
    have "k' < ?n"
    proof (rule ccontr)
      assume n: "\<not> k' < ?n"
      have "length xs = ?n + length (dropWhile (\<lambda>y. y = x) xs)"
        by (metis length_append takeWhile_dropWhile_id)
      then have lt: "k' - ?n < length (dropWhile (\<lambda>y. y = x) xs)"
        using n jk(4) by linarith
      then have "dropWhile (\<lambda>y. y = x) xs ! (k' - ?n) = xs ! (k' - ?n + ?n)"
        by (rule dropWhile_nth)
      then have "dropWhile (\<lambda>y. y = x) xs ! (k' - ?n) = x"
        using n xk by simp
      then have "x \<in> set (dropWhile (\<lambda>y. y = x) xs)"
        using lt by (metis nth_mem)
      with Cons.prems(1) show False by simp
    qed
    then have "j' < ?n" using jk by simp
    then have "xs ! j' = x"
      by (metis (mono_tags, lifting) nth_mem set_takeWhileD takeWhile_nth)
    with 0 jk show ?thesis by simp
  qed
qed

lemma nth_contig:
  assumes "\<forall>k < length ks. \<forall>j < k. \<forall>i < j. ks ! i = ks ! k \<longrightarrow> ks ! j = ks ! i"
  shows "contig ks"
  using assms
proof (induction ks)
  case Nil
  then show ?case by simp
next
  case (Cons x xs)
  have tl: "\<forall>k < length xs. \<forall>j < k. \<forall>i < j. xs ! i = xs ! k \<longrightarrow> xs ! j = xs ! i"
  proof (intro allI impI)
    fix k j i assume "k < length xs" "j < k" "i < j" "xs ! i = xs ! k"
    then show "xs ! j = xs ! i"
      using Cons.prems [rule_format, of "Suc k" "Suc j" "Suc i"] by simp
  qed
  have "x \<notin> set (dropWhile (\<lambda>y. y = x) xs)"
  proof
    let ?d = "dropWhile (\<lambda>y. y = x) xs"
    let ?n = "length (takeWhile (\<lambda>y. y = x) xs)"
    assume "x \<in> set ?d"
    then obtain q where q: "q < length ?d" "?d ! q = x"
      by (auto simp: in_set_conv_nth)
    then have ne: "?d \<noteq> []" by (metis list.size(3) not_less0)
    have h: "hd ?d \<noteq> x"
      using hd_dropWhile [of "\<lambda>y. y = x" xs] ne by blast
    have len: "length xs = ?n + length ?d"
      by (metis length_append takeWhile_dropWhile_id)
    have "0 < length ?d" using q(1) by linarith
    then have "?d ! 0 = xs ! (0 + ?n)" by (rule dropWhile_nth)
    then have d0: "?d ! 0 = xs ! ?n" by simp
    have dq: "?d ! q = xs ! (q + ?n)" using q(1) by (rule dropWhile_nth)
    have hd0: "hd ?d = ?d ! 0" using ne by (rule hd_conv_nth)
    have q0: "q \<noteq> 0" using q(2) h hd0 by metis
    have "q + ?n < length xs" using q(1) len by linarith
    then have b1: "Suc (q + ?n) < length (x # xs)" by simp
    have b2: "Suc ?n < Suc (q + ?n)" using q0 by simp
    have e: "(x # xs) ! 0 = (x # xs) ! Suc (q + ?n)" using dq q(2) by simp
    have "(x # xs) ! Suc ?n = (x # xs) ! 0"
      using Cons.prems [rule_format, OF b1 b2 _ e] by blast
    then have "xs ! ?n = x" by simp
    then show False using h d0 hd0 by metis
  qed
  with Cons.IH [OF tl] show ?case by simp
qed

lemma city_contiguous_contig: "city_contiguous cps \<longleftrightarrow> contig (map city cps)"
proof
  assume "city_contiguous cps"
  then show "contig (map city cps)"
    unfolding city_contiguous_def by (intro nth_contig) auto
next
  assume c: "contig (map city cps)"
  show "city_contiguous cps"
    unfolding city_contiguous_def
  proof (intro allI impI)
    fix k j i assume "k < length cps" "j < k" "i < j" "city (cps ! i) = city (cps ! k)"
    then show "city (cps ! j) = city (cps ! i)"
      using contig_nth [OF c, of i j k] by simp
  qed
qed

lemma contig_blocks:
  "distinct cs \<Longrightarrow> contig (concat (map (\<lambda>c. replicate (n c) c) cs))"
proof (induction cs)
  case Nil
  then show ?case by simp
next
  case (Cons c cs)
  let ?rest = "concat (map (\<lambda>c. replicate (n c) c) cs)"
  have notin: "c \<notin> set ?rest" using Cons.prems by auto
  have "contig (replicate m c @ ?rest)" for m
  proof (induction m)
    case 0
    then show ?case using Cons by simp
  next
    case (Suc m)
    have "dropWhile (\<lambda>y. y = c) (replicate m c @ ?rest) = dropWhile (\<lambda>y. y = c) ?rest"
      by (rule dropWhile_append2) simp
    then have "c \<notin> set (dropWhile (\<lambda>y. y = c) (replicate m c @ ?rest))"
      using notin set_dropWhileD by fastforce
    with Suc show ?case by simp
  qed
  then show ?case by simp
qed

lemma set_dropWhile_filter:
  "set (dropWhile q (map f (filter p xs))) \<subseteq> set (dropWhile q (map f xs))"
proof (induction xs)
  case Nil
  then show ?case by simp
next
  case (Cons y ys)
  have sub: "set (dropWhile q (map f ys)) \<subseteq> set (map f ys)"
    by (meson set_dropWhileD subsetI)
  show ?case
  proof (cases "p y")
    case True
    show ?thesis
    proof (cases "q (f y)")
      case True
      with \<open>p y\<close> Cons show ?thesis by simp
    next
      case False
      with \<open>p y\<close> show ?thesis by auto
    qed
  next
    case False
    show ?thesis
    proof (cases "q (f y)")
      case True
      with \<open>\<not> p y\<close> Cons show ?thesis by simp
    next
      case False
      with \<open>\<not> p y\<close> Cons sub show ?thesis by (simp add: subset_iff)
    qed
  qed
qed

lemma contig_filter: "contig (map f xs) \<Longrightarrow> contig (map f (filter p xs))"
proof (induction xs)
  case Nil
  then show ?case by simp
next
  case (Cons y ys)
  then have ih: "contig (map f (filter p ys))" and nin: "f y \<notin> set (dropWhile (\<lambda>z. z = f y) (map f ys))"
    by simp_all
  show ?case
  proof (cases "p y")
    case True
    have "f y \<notin> set (dropWhile (\<lambda>z. z = f y) (map f (filter p ys)))"
      using nin set_dropWhile_filter [of "\<lambda>z. z = f y" f p ys] by (meson subsetD)
    with True ih show ?thesis by simp
  next
    case False
    with ih show ?thesis by simp
  qed
qed

lemma map_const:
  "\<forall>y \<in> set ys. f y = c \<Longrightarrow> map f ys = replicate (length ys) c"
  by (induction ys) auto

lemma map_city_regroup:
  "map city (regroup xs) =
     concat (map (\<lambda>c. replicate (length (filter (\<lambda>cp. city cp = c) xs)) c) (from_Set (map city xs)))"
proof -
  have "map city (js_sort byDayThenStart (filter (\<lambda>cp. city cp = c) xs)) =
          replicate (length (filter (\<lambda>cp. city cp = c) xs)) c" for c
    using map_const [of "js_sort byDayThenStart (filter (\<lambda>cp. city cp = c) xs)" city c]
    by (simp add: set_js_sort length_js_sort)
  then show ?thesis
    by (simp add: regroup_def Let_def map_concat comp_def)
qed

lemma contiguous_regroup: "city_contiguous (regroup xs)"
  by (simp add: city_contiguous_contig map_city_regroup contig_blocks distinct_from_Set)

lemma sorted_blocks:
  assumes "distinct cs"
    and "\<And>c. sorted_wrt key_le (B c)"
    and "\<And>c x. x \<in> set (B c) \<Longrightarrow> city x = c"
  shows "sorted_wrt (\<lambda>a b. city a = city b \<longrightarrow> key_le a b) (concat (map B cs))"
  using assms(1)
proof (induction cs)
  case Nil
  then show ?case by simp
next
  case (Cons c cs)
  have blk: "sorted_wrt (\<lambda>a b. city a = city b \<longrightarrow> key_le a b) (B c)"
    using assms(2) [of c] by (rule sorted_wrt_mono_rel [rotated]) simp
  have cross: "\<forall>x \<in> set (B c). \<forall>y \<in> set (concat (map B cs)). city x = city y \<longrightarrow> key_le x y"
    using Cons.prems assms(3) by auto
  from Cons blk cross show ?case
    by (simp add: sorted_wrt_append)
qed

lemma sorted_regroup:
  assumes "numeric_days xs"
  shows "sorted_in_city (regroup xs)"
proof -
  have "sorted_wrt key_le (js_sort byDayThenStart (filter (\<lambda>cp. city cp = c) xs))" for c
    using assms by (intro sorted_js_sort) (simp add: numeric_days_def list_all_iff)
  then show ?thesis
    unfolding sorted_in_city_def regroup_def Let_def
    by (intro sorted_blocks) (simp_all add: distinct_from_Set set_js_sort)
qed

lemma numeric_newCheckpoint:
  assumes "numeric_days (checkpoints t)"
  shows "numeric_days (checkpoints t @ [newCheckpoint newId la lo nm cty targetCity t])"
proof -
  have "day (newCheckpoint newId la lo nm cty targetCity t) \<noteq> NaN"
  proof (cases "checkpoints t")
    case Nil
    then show ?thesis by (simp add: newCheckpoint_def)
  next
    case (Cons a l)
    then have "last (checkpoints t) \<in> set (checkpoints t)" by simp
    then have "day (last (checkpoints t)) \<noteq> NaN"
      using assms by (simp add: numeric_days_def list_all_iff)
    with Cons show ?thesis by (simp add: newCheckpoint_def)
  qed
  with assms show ?thesis by (simp add: numeric_days_def)
qed

lemma numeric_sanitizedForm: "day (sanitizedForm P f) \<noteq> NaN"
  by (cases "parseInt P (pf_day f)") (simp_all add: sanitizedForm_def)

lemma numeric_saved:
  "numeric_days cps \<Longrightarrow>
     numeric_days (map (\<lambda>c. if cp_id c = e then sanitizedForm P f else c) cps)"
  by (auto simp: numeric_days_def list_all_iff numeric_sanitizedForm)

lemma contiguous_filter: "city_contiguous cps \<Longrightarrow> city_contiguous (filter p cps)"
  by (simp add: city_contiguous_contig contig_filter)

lemma sorted_in_city_filter: "sorted_in_city cps \<Longrightarrow> sorted_in_city (filter p cps)"
  by (simp add: sorted_in_city_def sorted_wrt_filter)

lemma foldl_set_add_known: "c \<in> set acc \<Longrightarrow> foldl set_add acc (replicate m c) = acc"
  by (induction m) (simp_all add: set_add_def)

lemma foldl_set_add_replicate:
  "c \<notin> set acc \<Longrightarrow> 0 < m \<Longrightarrow> foldl set_add acc (replicate m c) = acc @ [c]"
  by (cases m) (simp_all add: set_add_def foldl_set_add_known)

lemma foldl_set_add_blocks:
  "distinct cs \<Longrightarrow> set cs \<inter> set acc = {} \<Longrightarrow> \<forall>c \<in> set cs. 0 < n c \<Longrightarrow>
     foldl set_add acc (concat (map (\<lambda>c. replicate (n c) c) cs)) = acc @ cs"
proof (induction cs arbitrary: acc)
  case Nil
  then show ?case by simp
next
  case (Cons c cs)
  have "foldl set_add acc (replicate (n c) c) = acc @ [c]"
    using Cons.prems by (intro foldl_set_add_replicate) auto
  moreover have "foldl set_add (acc @ [c]) (concat (map (\<lambda>c. replicate (n c) c) cs)) = (acc @ [c]) @ cs"
    using Cons.prems by (intro Cons.IH) auto
  ultimately show ?case by simp
qed

lemma city_order_regroup: "from_Set (map city (regroup xs)) = from_Set (map city xs)"
proof -
  have "\<forall>c \<in> set (from_Set (map city xs)). 0 < length (filter (\<lambda>cp. city cp = c) xs)"
    by (auto simp: set_from_Set length_greater_0_conv filter_empty_conv)
  then have "foldl set_add [] (map city (regroup xs)) = [] @ from_Set (map city xs)"
    unfolding map_city_regroup
    by (intro foldl_set_add_blocks) (simp_all add: distinct_from_Set)
  then show ?thesis by (simp add: from_Set_def)
qed

text \<open>
  C4, as amended. After \<open>insertCheckpoint\<close> and \<open>updateCheckpointFields\<close>, on every trip, the
  checkpoints of each city are contiguous, and when all days are numbers they are
  non-decreasing by day, then start time, within each city; the regrouping keeps the cities
  in order of first appearance. \<open>deleteCheckpoint\<close> and \<open>deleteDestination\<close> do not regroup or
  sort: they keep the checkpoints contiguous by city when they were, and sorted within each
  city when they were.
\<close>

theorem regrouping_and_removal:
  "(resorts X \<longrightarrow>
      city_contiguous (checkpoints (run_op P X t)) \<and>
      (numeric_days (checkpoints t) \<longrightarrow> sorted_in_city (checkpoints (run_op P X t)))) \<and>
   (only_removes X \<longrightarrow>
      (city_contiguous (checkpoints t) \<longrightarrow> city_contiguous (checkpoints (run_op P X t))) \<and>
      (sorted_in_city (checkpoints t) \<longrightarrow> sorted_in_city (checkpoints (run_op P X t)))) \<and>
   from_Set (map city (regroup cps)) = from_Set (map city cps)"
proof (cases X)
  case (InsertCheckpoint newId la lo nm cty targetCity)
  then show ?thesis
    by (simp add: addCheckpoint_updater_def Let_def contiguous_regroup sorted_regroup
        numeric_newCheckpoint city_order_regroup)
next
  case (UpdateCheckpointFields f)
  then show ?thesis
    by (simp add: handleSave_pin_def Let_def contiguous_regroup sorted_regroup numeric_saved
        city_order_regroup)
next
  case (DeleteCheckpoint ident)
  then show ?thesis
    by (simp add: handleDeleteCheckpoint_def Let_def contiguous_filter sorted_in_city_filter
        city_order_regroup)
next
  case (DeleteDestination cityName)
  then show ?thesis
    by (simp add: handleDeleteDestination_def Let_def contiguous_filter sorted_in_city_filter
        city_order_regroup)
qed (simp_all add: city_order_regroup)


theorem regrouping_and_removal_witness:
  "resorts (InsertCheckpoint ''e'' (Num 15) (Num 74) ''e'' ''Goa'' None) \<and>
   numeric_days (checkpoints (run_op demo (MoveCheckpoint ''c'' 1) demo_trip4)) \<and>
   \<not> city_contiguous (checkpoints (run_op demo (MoveCheckpoint ''c'' 1) demo_trip4)) \<and>
   map cp_id (checkpoints (run_op demo (InsertCheckpoint ''e'' (Num 15) (Num 74) ''e'' ''Goa'' None)
        (run_op demo (MoveCheckpoint ''c'' 1) demo_trip4))) = [''a'', ''c'', ''b'', ''d'', ''e''] \<and>
   city_contiguous (checkpoints (run_op demo (InsertCheckpoint ''e'' (Num 15) (Num 74) ''e'' ''Goa'' None)
        (run_op demo (MoveCheckpoint ''c'' 1) demo_trip4))) \<and>
   sorted_in_city (checkpoints (run_op demo (InsertCheckpoint ''e'' (Num 15) (Num 74) ''e'' ''Goa'' None)
        (run_op demo (MoveCheckpoint ''c'' 1) demo_trip4))) \<and>
   only_removes (DeleteCheckpoint ''c'') \<and>
   city_contiguous (checkpoints demo_trip4) \<and> sorted_in_city (checkpoints demo_trip4) \<and>
   city_contiguous (checkpoints (run_op demo (DeleteCheckpoint ''c'') demo_trip4)) \<and>
   sorted_in_city (checkpoints (run_op demo (DeleteCheckpoint ''c'') demo_trip4))"
proof -
  let ?t = "run_op demo (MoveCheckpoint ''c'' 1) demo_trip4"
  let ?X = "InsertCheckpoint ''e'' (Num 15) (Num 74) ''e'' ''Goa'' None"
  have a: "resorts ?X" by simp
  have b: "numeric_days (checkpoints ?t)" by code_simp
  have c: "\<not> city_contiguous (checkpoints ?t)" by code_simp
  have d: "map cp_id (checkpoints (run_op demo ?X ?t)) = [''a'', ''c'', ''b'', ''d'', ''e'']"
    by code_simp
  have e: "only_removes (DeleteCheckpoint ''c'')" by simp
  have f: "city_contiguous (checkpoints demo_trip4)" by code_simp
  have g: "sorted_in_city (checkpoints demo_trip4)" by code_simp
  show ?thesis
    using regrouping_and_removal [of ?X demo ?t "[]"] regrouping_and_removal [of "DeleteCheckpoint ''c''" demo demo_trip4 "[]"]
      a b c d e f g
    by blast
qed

text \<open>C4 as the specification states it fails after a deletion: on the grouped trip with \<open>a\<close>, \<open>c\<close>
  in Agra and \<open>b\<close>, \<open>d\<close> in Goa, moving \<open>c\<close> down one place and then deleting \<open>d\<close> leaves
  Agra, Goa, Agra.\<close>

theorem deletion_keeps_cities_apart:
  "city_contiguous (checkpoints demo_trip4) \<and> sorted_in_city (checkpoints demo_trip4) \<and>
   \<not> city_contiguous (checkpoints (run_op demo (DeleteCheckpoint ''d'')
        (run_op demo (MoveCheckpoint ''c'' 1) demo_trip4)))"
  by code_simp

end
